theory Spec2Isabelle
  imports Main "HOL-Library.Multiset"
begin

section \<open>Python values shared by both modules\<close>

text \<open>
  The exceptions the code can see. \<open>Exception msg\<close> stands for an instance of
  \<open>Exception\<close> or of any of its subclasses whose \<open>str\<close> is \<open>msg\<close>; the other
  constructors are the built-in classes that derive from \<open>BaseException\<close> but not from
  \<open>Exception\<close>. No handler of the two modules tells more classes apart:
  \<open>except Exception\<close> and \<open>except KeyboardInterrupt\<close> are the only ones.
\<close>

datatype py_exn = Exception string | KeyboardInterrupt | SystemExit | GeneratorExit

fun is_Exception :: "py_exn \<Rightarrow> bool" where
  "is_Exception (Exception msg) = True"
| "is_Exception KeyboardInterrupt = False"
| "is_Exception SystemExit = False"
| "is_Exception GeneratorExit = False"

fun str_exn :: "py_exn \<Rightarrow> string" where
  "str_exn (Exception msg) = msg"
| "str_exn KeyboardInterrupt = []"
| "str_exn SystemExit = []"
| "str_exn GeneratorExit = []"

text \<open>
  A call of a zero-argument callback from a state \<open>w\<close> of the process either returns or
  raises; in both cases it leaves a state behind. Callbacks are assumed to come back
  (a callback that loops forever is outside the model) and not to register further
  callbacks while a registry is being run.
\<close>

datatype 'w outcome = Returned 'w | Raised py_exn 'w

fun state_of :: "'w outcome \<Rightarrow> 'w" where
  "state_of (Returned w) = w"
| "state_of (Raised e w) = w"

fun is_Returned :: "'w outcome \<Rightarrow> bool" where
  "is_Returned (Returned w) = True"
| "is_Returned (Raised e w) = False"


section \<open>\<open>sideboard/lib/_cp.py\<close>: the startup and shutdown registries\<close>

text \<open>
  \<open>_startup_registry\<close> and \<open>_shutdown_registry\<close> are \<open>defaultdict(list)\<close>: a
  dictionary from priority to the list of functions registered with it. A dictionary is
  an association list with distinct keys, in insertion order.
  \<open>registry[priority].append(func)\<close> appends to the list of an existing key and
  creates the key, with a one-element list, otherwise.
\<close>

type_synonym 'f registry = "(int \<times> 'f list) list"

fun registry_append :: "'f registry \<Rightarrow> int \<Rightarrow> 'f \<Rightarrow> 'f registry" where
  "registry_append [] priority func = [(priority, [func])]"
| "registry_append ((k, functions) # rest) priority func =
     (if k = priority then (k, functions @ [func]) # rest
      else (k, functions) # registry_append rest priority func)"

record 'f registries =
  startup_registry :: "'f registry"
  shutdown_registry :: "'f registry"

definition empty_registries :: "'f registries" where
  "empty_registries = \<lparr>startup_registry = [], shutdown_registry = []\<rparr>"

text \<open>\<open>_on_startup\<close> and \<open>_on_shutdown\<close> (the leading underscore is not an Isabelle name).\<close>

definition priv_on_startup :: "'f \<Rightarrow> int \<Rightarrow> 'f registries \<Rightarrow> 'f registries" where
  "priv_on_startup func priority rs =
     rs\<lparr>startup_registry := registry_append (startup_registry rs) priority func\<rparr>"

definition priv_on_shutdown :: "'f \<Rightarrow> int \<Rightarrow> 'f registries \<Rightarrow> 'f registries" where
  "priv_on_shutdown func priority rs =
     rs\<lparr>shutdown_registry := registry_append (shutdown_registry rs) priority func\<rparr>"

text \<open>
  \<open>on_startup(func=None, priority=50)\<close> tests \<open>if func:\<close>. \<open>None\<close> (the argument left
  out) is false, and so is a callable object whose class makes it so; \<open>truth\<close> gives the
  truth value of the function objects. With a true argument the function is registered
  with \<open>_on_startup(func, priority)\<close> and returned. Otherwise nothing is registered, and
  what is returned is the decorator \<open>lambda func: _on_startup(func, priority)\<close>, which
  registers the function it is then applied to, whatever its truth value. A priority of
  \<open>None\<close> is the keyword left out. \<open>on_shutdown\<close> is the same on the other registry.
\<close>

datatype 'f returned = Function 'f | Startup_decorator int | Shutdown_decorator int

definition on_startup ::
  "('f \<Rightarrow> bool) \<Rightarrow> 'f option \<Rightarrow> int option \<Rightarrow> 'f registries \<Rightarrow> 'f returned \<times> 'f registries" where
  "on_startup truth func priority rs =
     (let p = (case priority of None \<Rightarrow> 50 | Some p \<Rightarrow> p) in
      case func of
        None \<Rightarrow> (Startup_decorator p, rs)
      | Some f \<Rightarrow>
          if truth f then (Function f, priv_on_startup f p rs)
          else (Startup_decorator p, rs))"

definition on_shutdown ::
  "('f \<Rightarrow> bool) \<Rightarrow> 'f option \<Rightarrow> int option \<Rightarrow> 'f registries \<Rightarrow> 'f returned \<times> 'f registries" where
  "on_shutdown truth func priority rs =
     (let p = (case priority of None \<Rightarrow> 50 | Some p \<Rightarrow> p) in
      case func of
        None \<Rightarrow> (Shutdown_decorator p, rs)
      | Some f \<Rightarrow>
          if truth f then (Function f, priv_on_shutdown f p rs)
          else (Shutdown_decorator p, rs))"

text \<open>The two decorators, applied to a function.\<close>

definition startup_decorator :: "int \<Rightarrow> 'f \<Rightarrow> 'f registries \<Rightarrow> 'f returned \<times> 'f registries" where
  "startup_decorator priority func rs = (Function func, priv_on_startup func priority rs)"

definition shutdown_decorator :: "int \<Rightarrow> 'f \<Rightarrow> 'f registries \<Rightarrow> 'f returned \<times> 'f registries" where
  "shutdown_decorator priority func rs = (Function func, priv_on_shutdown func priority rs)"

text \<open>
  A program's registrations, in the order it makes them. A registration is a call that
  reaches \<open>_on_startup(func, priority)\<close> or \<open>_on_shutdown(func, priority)\<close>: \<open>on_startup\<close>
  or \<open>on_shutdown\<close> called with a true function, or one of their decorators applied.
\<close>

datatype 'f registration = On_startup 'f int | On_shutdown 'f int

fun register :: "'f registries \<Rightarrow> 'f registration \<Rightarrow> 'f registries" where
  "register rs (On_startup func priority) = priv_on_startup func priority rs"
| "register rs (On_shutdown func priority) = priv_on_shutdown func priority rs"

definition register_all :: "'f registration list \<Rightarrow> 'f registries \<Rightarrow> 'f registries" where
  "register_all script rs = foldl register rs script"

fun startups :: "'f registration list \<Rightarrow> ('f \<times> int) list" where
  "startups [] = []"
| "startups (On_startup func priority # script) = (func, priority) # startups script"
| "startups (On_shutdown func priority # script) = startups script"

fun shutdowns :: "'f registration list \<Rightarrow> ('f \<times> int) list" where
  "shutdowns [] = []"
| "shutdowns (On_startup func priority # script) = shutdowns script"
| "shutdowns (On_shutdown func priority # script) = (func, priority) # shutdowns script"

text \<open>A registry after further entries have been appended, in order.\<close>

definition append_all :: "'f registry \<Rightarrow> ('f \<times> int) list \<Rightarrow> 'f registry" where
  "append_all reg regs = foldl (\<lambda>reg (func, priority). registry_append reg priority func) reg regs"

text \<open>
  \<open>sorted(registry.items())\<close> orders the \<open>(priority, functions)\<close> pairs; the keys of a
  dictionary are distinct, so the priorities alone decide.
\<close>

definition sorted_items :: "'f registry \<Rightarrow> (int \<times> 'f list) list" where
  "sorted_items reg = sort_key fst reg"

text \<open>
  The sequence the two nested \<open>for\<close> loops walk through: every function of every
  priority group, group after group, each function with the priority of its group.
\<close>

definition entries :: "(int \<times> 'f list) list \<Rightarrow> ('f \<times> int) list" where
  "entries items = concat (map (\<lambda>(priority, functions). map (\<lambda>func. (func, priority)) functions) items)"

definition schedule :: "'f registry \<Rightarrow> ('f \<times> int) list" where
  "schedule reg = entries (sorted_items reg)"

definition execution_order :: "'f registry \<Rightarrow> 'f list" where
  "execution_order reg = map fst (schedule reg)"


subsection \<open>\<open>_run_startup\<close>\<close>

text \<open>
  The inner loop \<open>for func in functions: func()\<close>. The result is the list of the
  functions that were called, in the order of the calls, and how the loop ended; an
  exception of a callback leaves the loop at once.
\<close>

fun startup_funcs :: "('f \<Rightarrow> 'w \<Rightarrow> 'w outcome) \<Rightarrow> 'f list \<Rightarrow> 'w \<Rightarrow> 'f list \<times> 'w outcome" where
  "startup_funcs call [] w = ([], Returned w)"
| "startup_funcs call (func # functions) w =
     (case call func w of
        Raised e w' \<Rightarrow> ([func], Raised e w')
      | Returned w' \<Rightarrow>
          (case startup_funcs call functions w' of (called, r) \<Rightarrow> (func # called, r)))"

text \<open>The outer loop \<open>for priority, functions in sorted(...)\<close>.\<close>

fun startup_items :: "('f \<Rightarrow> 'w \<Rightarrow> 'w outcome) \<Rightarrow> (int \<times> 'f list) list \<Rightarrow> 'w \<Rightarrow> 'f list \<times> 'w outcome" where
  "startup_items call [] w = ([], Returned w)"
| "startup_items call ((priority, functions) # rest) w =
     (case startup_funcs call functions w of
        (called, Raised e w') \<Rightarrow> (called, Raised e w')
      | (called, Returned w') \<Rightarrow>
          (case startup_items call rest w' of (called', r) \<Rightarrow> (called @ called', r)))"

definition run_startup :: "('f \<Rightarrow> 'w \<Rightarrow> 'w outcome) \<Rightarrow> 'f registries \<Rightarrow> 'w \<Rightarrow> 'f list \<times> 'w outcome" where
  "run_startup call rs w = startup_items call (sorted_items (startup_registry rs)) w"


subsection \<open>\<open>_run_shutdown\<close>\<close>

text \<open>
  \<open>log.warn('Ignored exception during shutdown', exc_info=True)\<close> writes the message
  and the exception being handled to the logger, which is not part of these modules:
  the warnings are an output of the run.
\<close>

type_synonym warning = "string \<times> py_exn"

definition log_warn :: "py_exn \<Rightarrow> warning" where
  "log_warn e = (''Ignored exception during shutdown'', e)"

text \<open>
  The inner loop with its \<open>try: func() except Exception: log.warn(...)\<close>: an exception
  that is an \<open>Exception\<close> is logged and the loop goes on; any other leaves the loop.
\<close>

fun shutdown_funcs :: "('f \<Rightarrow> 'w \<Rightarrow> 'w outcome) \<Rightarrow> 'f list \<Rightarrow> 'w \<Rightarrow> 'f list \<times> warning list \<times> 'w outcome" where
  "shutdown_funcs call [] w = ([], [], Returned w)"
| "shutdown_funcs call (func # functions) w =
     (case call func w of
        Returned w' \<Rightarrow>
          (case shutdown_funcs call functions w' of
             (called, warned, r) \<Rightarrow> (func # called, warned, r))
      | Raised e w' \<Rightarrow>
          (if is_Exception e
           then (case shutdown_funcs call functions w' of
                   (called, warned, r) \<Rightarrow> (func # called, log_warn e # warned, r))
           else ([func], [], Raised e w')))"

fun shutdown_items :: "('f \<Rightarrow> 'w \<Rightarrow> 'w outcome) \<Rightarrow> (int \<times> 'f list) list \<Rightarrow> 'w \<Rightarrow> 'f list \<times> warning list \<times> 'w outcome" where
  "shutdown_items call [] w = ([], [], Returned w)"
| "shutdown_items call ((priority, functions) # rest) w =
     (case shutdown_funcs call functions w of
        (called, warned, Raised e w') \<Rightarrow> (called, warned, Raised e w')
      | (called, warned, Returned w') \<Rightarrow>
          (case shutdown_items call rest w' of
             (called', warned', r) \<Rightarrow> (called @ called', warned @ warned', r)))"

definition run_shutdown :: "('f \<Rightarrow> 'w \<Rightarrow> 'w outcome) \<Rightarrow> 'f registries \<Rightarrow> 'w \<Rightarrow> 'f list \<times> warning list \<times> 'w outcome" where
  "run_shutdown call rs w = shutdown_items call (sorted_items (shutdown_registry rs)) w"


subsection \<open>The \<open>stopped\<close> event and the module's own registrations\<close>

text \<open>
  The state of the process as this module sees it: the flag of the \<open>threading.Event\<close>
  \<open>stopped\<close>, and everything else the callbacks of the plugins work on. \<open>stopped\<close> is a
  global of the module, so every callback can reach it.
\<close>

record 'u world =
  stopped :: bool
  plugin_state :: 'u

text \<open>
  The function objects a registry holds: the bound methods \<open>stopped.clear\<close> and
  \<open>stopped.set\<close> that the module registers itself, and the functions of the plugins,
  whose behaviour \<open>call\<close> gives.
\<close>

datatype 'f callback = Stopped_clear | Stopped_set | Plugin 'f

fun invoke :: "('f \<Rightarrow> 'u world \<Rightarrow> 'u world outcome) \<Rightarrow> 'f callback \<Rightarrow> 'u world \<Rightarrow> 'u world outcome" where
  "invoke call Stopped_clear w = Returned (w\<lparr>stopped := False\<rparr>)"
| "invoke call Stopped_set w = Returned (w\<lparr>stopped := True\<rparr>)"
| "invoke call (Plugin func) w = call func w"

text \<open>A bound method is true; a function of a plugin has the truth value \<open>truth\<close> gives it.\<close>

fun callback_truth :: "('f \<Rightarrow> bool) \<Rightarrow> 'f callback \<Rightarrow> bool" where
  "callback_truth truth Stopped_clear = True"
| "callback_truth truth Stopped_set = True"
| "callback_truth truth (Plugin func) = truth func"

text \<open>
  The registries once the module is imported:
  \<open>on_startup(stopped.clear, priority=0)\<close> and \<open>on_shutdown(stopped.set, priority=0)\<close>.
  Only the two bound methods are passed, so the truth values of the plugins' functions
  play no part.
\<close>

definition module_registries :: "'f callback registries" where
  "module_registries =
     snd (on_shutdown (callback_truth (\<lambda>func. True)) (Some Stopped_set) (Some 0)
       (snd (on_startup (callback_truth (\<lambda>func. True)) (Some Stopped_clear) (Some 0)
          empty_registries)))"

fun plugin_registration :: "'f registration \<Rightarrow> 'f callback registration" where
  "plugin_registration (On_startup func priority) = On_startup (Plugin func) priority"
| "plugin_registration (On_shutdown func priority) = On_shutdown (Plugin func) priority"

text \<open>The registries after the plugins have made the registrations of \<open>script\<close>.\<close>

definition process_registries :: "'f registration list \<Rightarrow> 'f callback registries" where
  "process_registries script = register_all (map plugin_registration script) module_registries"


subsection \<open>\<open>mainloop\<close>\<close>






section \<open>\<open>sideboard/internal/connection_checker.py\<close>: the connection check\<close>

subsection \<open>What \<open>_check\<close> reads and calls\<close>

text \<open>
  The attributes of \<open>urlparse(url)\<close> that \<open>_check\<close> reads: \<open>scheme\<close>, \<open>hostname\<close>
  (\<open>None\<close> for a URL with no host) and \<open>port\<close>. \<open>port\<close> is a property computed when it
  is read: the number written in the URL, \<open>None\<close> when the URL names no port, or an
  exception when what stands after the colon is not a number.
\<close>

record parsed_url =
  scheme :: string
  hostname :: "string option"
  port :: "py_exn + nat option"

text \<open>
  \<open>**ssl_params\<close>: the keyword arguments, each a path or \<open>None\<close>; \<open>check_all\<close> passes
  \<open>ca_certs\<close>, \<open>keyfile\<close> and \<open>certfile\<close>.
\<close>

type_synonym ssl_params = "(string \<times> string option) list"

datatype cert_reqs = CERT_NONE | CERT_OPTIONAL | CERT_REQUIRED

text \<open>
  The calls \<open>_check\<close> makes on the network, with the arguments of the call site. An
  argument the call site leaves out is \<open>None\<close>: the \<open>timeout\<close> of
  \<open>socket.create_connection(address, timeout)\<close> (in seconds) and the \<open>cert_reqs\<close> of
  \<open>ssl.wrap_socket\<close>. Sockets are numbered.
\<close>

datatype net_op =
    Gethostbyname "string option"
  | Create_connection "string option" nat "nat option"
  | Wrap_socket nat "cert_reqs option" ssl_params
  | Close nat

text \<open>
  The library and the network are parameters of the model. Each network function is
  given the calls made before it, so the second \<open>create_connection\<close> to an address
  need not end as the first did; each returns its value or the exception it raises.
\<close>

record net =
  urlparse :: "string \<Rightarrow> py_exn + parsed_url"
  gethostbyname :: "net_op list \<Rightarrow> string option \<Rightarrow> py_exn + string"
  create_connection :: "net_op list \<Rightarrow> string option \<Rightarrow> nat \<Rightarrow> nat option \<Rightarrow> py_exn + nat"
  wrap_socket :: "net_op list \<Rightarrow> nat \<Rightarrow> cert_reqs option \<Rightarrow> ssl_params \<Rightarrow> py_exn + unit"

text \<open>
  The timeout a \<open>create_connection\<close> call works with: the one it is given, and
  otherwise the default of the process, \<open>socket.getdefaulttimeout()\<close>, which is \<open>None\<close>
  (no timeout) unless the process has called \<open>socket.setdefaulttimeout\<close>.
\<close>

definition timeout_in_effect :: "nat option \<Rightarrow> net_op \<Rightarrow> nat option" where
  "timeout_in_effect defaulttimeout op =
     (case op of
        Create_connection host port_no (Some t) \<Rightarrow> Some t
      | _ \<Rightarrow> defaulttimeout)"

fun is_connect :: "net_op \<Rightarrow> bool" where
  "is_connect (Create_connection host port_no timeout) = True"
| "is_connect (Gethostbyname host) = False"
| "is_connect (Wrap_socket sock reqs ssl_params) = False"
| "is_connect (Close sock) = False"

fun is_tls_op :: "net_op \<Rightarrow> bool" where
  "is_tls_op (Wrap_socket sock reqs ssl_params) = True"
| "is_tls_op (Create_connection host port_no timeout) = False"
| "is_tls_op (Gethostbyname host) = False"
| "is_tls_op (Close sock) = False"


subsection \<open>The status lines\<close>

text \<open>
  One constructor for each line \<open>_check\<close> can append, with the values its format
  string is filled with; \<open>render\<close> gives the text.
\<close>

datatype line =
    Checking string
  | Failed_parse string
  | Using_host_port "string option" nat
  | Failed_resolve string
  | Resolved "string option" string
  | Failed_connect "string option" nat string
  | Opened "string option" nat
  | Failed_handshake ssl_params string
  | Handshake_ok
  | Failed_validate ssl_params string
  | Everything_works

fun show_nat :: "nat \<Rightarrow> string" where
  "show_nat n =
     (if n < 10 then [''0123456789'' ! n]
      else show_nat (n div 10) @ [''0123456789'' ! (n mod 10)])"

fun show_host :: "string option \<Rightarrow> string" where
  "show_host None = ''None''"
| "show_host (Some h) = h"

text \<open>\<open>repr_params\<close> is Python's text of the dictionary \<open>ssl_params\<close>.\<close>

fun render :: "(ssl_params \<Rightarrow> string) \<Rightarrow> line \<Rightarrow> string" where
  "render repr_params (Checking url) = ''checking '' @ url"
| "render repr_params (Failed_parse e) = ''failed to parse url: '' @ e"
| "render repr_params (Using_host_port host port_no) =
     ''using hostname '' @ show_host host @ '' and port '' @ show_nat port_no"
| "render repr_params (Failed_resolve e) = ''failed to resolve host with DNS: '' @ e"
| "render repr_params (Resolved host ip) =
     ''successfully resolved host '' @ show_host host @ '' to '' @ ip"
| "render repr_params (Failed_connect host port_no e) =
     ''failed to establish a socket connection to '' @ show_host host @ '' on port ''
       @ show_nat port_no @ '': '' @ e"
| "render repr_params (Opened host port_no) =
     ''successfully opened socket connection to '' @ show_host host @ '':'' @ show_nat port_no"
| "render repr_params (Failed_handshake ssl_params e) =
     ''failed to complete SSL handshake ('' @ repr_params ssl_params @ ''): '' @ e"
| "render repr_params Handshake_ok =
     ''succeeded at SSL handshake (without validating server cert)''"
| "render repr_params (Failed_validate ssl_params e) =
     ''failed to validate server cert ('' @ repr_params ssl_params @ ''): '' @ e"
| "render repr_params Everything_works = ''everything seems to work''"

text \<open>The lines of the two TLS stages.\<close>

fun is_tls_line :: "line \<Rightarrow> bool" where
  "is_tls_line (Failed_handshake ssl_params e) = True"
| "is_tls_line Handshake_ok = True"
| "is_tls_line (Failed_validate ssl_params e) = True"
| "is_tls_line (Checking url) = False"
| "is_tls_line (Failed_parse e) = False"
| "is_tls_line (Using_host_port host port_no) = False"
| "is_tls_line (Failed_resolve e) = False"
| "is_tls_line (Resolved host ip) = False"
| "is_tls_line (Failed_connect host port_no e) = False"
| "is_tls_line (Opened host port_no) = False"
| "is_tls_line Everything_works = False"


subsection \<open>\<open>_check\<close>\<close>

text \<open>
  \<open>parsed.port or (443 if parsed.scheme in ['https', 'wss'] else 80)\<close>. Python's \<open>or\<close>
  gives its right operand when the left one is false, and both \<open>None\<close> and \<open>0\<close> are.
\<close>

definition default_port :: "string \<Rightarrow> nat" where
  "default_port sch = (if sch \<in> set [''https'', ''wss''] then 443 else 80)"

definition effective_port :: "nat option \<Rightarrow> string \<Rightarrow> nat" where
  "effective_port explicit sch =
     (case explicit of
        None \<Rightarrow> default_port sch
      | Some n \<Rightarrow> if n = 0 then default_port sch else n)"

text \<open>\<open>any(ssl_params.values())\<close>: a value is true when it is a string that is not empty.\<close>

fun truthy :: "string option \<Rightarrow> bool" where
  "truthy None = False"
| "truthy (Some s) = (s \<noteq> [])"

definition any_values :: "ssl_params \<Rightarrow> bool" where
  "any_values ssl_params = list_ex truthy (map snd ssl_params)"

text \<open>
  \<open>except Exception as e: return status + [...]\<close>: an \<open>Exception\<close> ends \<open>_check\<close> with
  the lines given; any other exception goes on to the caller.
\<close>

definition except_Exception :: "py_exn \<Rightarrow> line list \<Rightarrow> py_exn + line list" where
  "except_Exception e lines = (if is_Exception e then Inr lines else Inl e)"

text \<open>
  The body of \<open>if any(ssl_params.values())\<close>: it either leaves \<open>_check\<close> (with a
  result or an exception) or goes on with the status it has built.

  First the open socket is wrapped, without \<open>cert_reqs\<close>, and closed in the \<open>finally\<close>
  clause whatever happened; then a new connection is opened inside \<open>with closing(...)\<close>
  and wrapped with \<open>cert_reqs=ssl.CERT_REQUIRED\<close>. \<open>closing\<close> closes the socket it was
  given, so nothing is closed when the connection could not be opened.
\<close>

datatype flow = Goes_on "line list" | Leaves "py_exn + line list"

definition tls_stages ::
  "net \<Rightarrow> net_op list \<Rightarrow> line list \<Rightarrow> string option \<Rightarrow> nat \<Rightarrow> nat \<Rightarrow> ssl_params
     \<Rightarrow> net_op list \<times> flow" where
  "tls_stages net ops status host port_no sock ssl_params =
     (let ops1 = ops @ [Wrap_socket sock None ssl_params, Close sock] in
      case wrap_socket net ops sock None ssl_params of
        Inl e \<Rightarrow>
          (ops1, Leaves (except_Exception e
                   (status @ [Failed_handshake ssl_params (str_exn e)])))
      | Inr wrapped \<Rightarrow>
          (let status1 = status @ [Handshake_ok];
               ops2 = ops1 @ [Create_connection host port_no None] in
           case create_connection net ops1 host port_no None of
             Inl e \<Rightarrow>
               (ops2, Leaves (except_Exception e
                        (status1 @ [Failed_validate ssl_params (str_exn e)])))
           | Inr sock2 \<Rightarrow>
               (let ops3 = ops2 @ [Wrap_socket sock2 (Some CERT_REQUIRED) ssl_params, Close sock2] in
                case wrap_socket net ops2 sock2 (Some CERT_REQUIRED) ssl_params of
                  Inl e \<Rightarrow>
                    (ops3, Leaves (except_Exception e
                             (status1 @ [Failed_validate ssl_params (str_exn e)])))
                | Inr wrapped2 \<Rightarrow> (ops3, Goes_on status1))))"

text \<open>
  \<open>_check(url, **ssl_params)\<close>: the network calls made, in order, and the list of
  status lines returned or the exception raised. \<open>parsed.port\<close> is read in the \<open>else\<close>
  clause of the first \<open>try\<close>, where no handler covers it.
\<close>

definition check :: "net \<Rightarrow> string \<Rightarrow> ssl_params \<Rightarrow> net_op list \<times> (py_exn + line list)" where
  "check net url ssl_params =
     (let status = [Checking url] in
      case urlparse net url of
        Inl e \<Rightarrow> ([], except_Exception e (status @ [Failed_parse (str_exn e)]))
      | Inr parsed \<Rightarrow>
          (case port parsed of
             Inl e \<Rightarrow> ([], Inl e)
           | Inr explicit \<Rightarrow>
               (let host = hostname parsed;
                    port_no = effective_port explicit (scheme parsed);
                    status1 = status @ [Using_host_port host port_no];
                    ops1 = [Gethostbyname host] in
                case gethostbyname net [] host of
                  Inl e \<Rightarrow> (ops1, except_Exception e (status1 @ [Failed_resolve (str_exn e)]))
                | Inr ip \<Rightarrow>
                    (let status2 = status1 @ [Resolved host ip];
                         ops2 = ops1 @ [Create_connection host port_no None] in
                     case create_connection net ops1 host port_no None of
                       Inl e \<Rightarrow>
                         (ops2, except_Exception e
                                  (status2 @ [Failed_connect host port_no (str_exn e)]))
                     | Inr sock \<Rightarrow>
                         (let status3 = status2 @ [Opened host port_no] in
                          if any_values ssl_params
                          then (case tls_stages net ops2 status3 host port_no sock ssl_params of
                                  (ops3, Leaves result) \<Rightarrow> (ops3, result)
                                | (ops3, Goes_on status4) \<Rightarrow>
                                    (ops3, Inr (status4 @ [Everything_works])))
                          else (ops2, Inr (status3 @ [Everything_works])))))))"

text \<open>The text \<open>_check\<close> returns.\<close>

definition check_text ::
  "(ssl_params \<Rightarrow> string) \<Rightarrow> net \<Rightarrow> string \<Rightarrow> ssl_params \<Rightarrow> py_exn + string list" where
  "check_text repr_params net url ssl_params =
     (case snd (check net url ssl_params) of
        Inl e \<Rightarrow> Inl e
      | Inr lines \<Rightarrow> Inr (map (render repr_params) lines))"


text \<open>
  A callback that leaves the \<open>stopped\<close> event as it found it, whether it returns or
  raises.
\<close>

definition leaves_stopped :: "('f \<Rightarrow> 'u world \<Rightarrow> 'u world outcome) \<Rightarrow> 'f \<Rightarrow> bool" where
  "leaves_stopped call func = (\<forall>w. stopped (state_of (call func w)) = stopped w)"


section \<open>Example processes and networks\<close>

text \<open>
  Callbacks named by strings, for the concrete runs below: one that always returns,
  one where a single named callback raises, and one where a single named callback sets
  the \<open>stopped\<close> event (as \<open>stopped.set()\<close> in a plugin's function does).
\<close>

definition always_returns :: "string \<Rightarrow> 'w \<Rightarrow> 'w outcome" where
  "always_returns func w = Returned w"

definition raises_in :: "string \<Rightarrow> py_exn \<Rightarrow> string \<Rightarrow> 'w \<Rightarrow> 'w outcome" where
  "raises_in bad e func w = (if func = bad then Raised e w else Returned w)"

definition stops_in :: "string \<Rightarrow> string \<Rightarrow> 'u world \<Rightarrow> 'u world outcome" where
  "stops_in bad func w = (if func = bad then Returned (w\<lparr>stopped := True\<rparr>) else Returned w)"

definition clears_in :: "string \<Rightarrow> string \<Rightarrow> 'u world \<Rightarrow> 'u world outcome" where
  "clears_in bad func w = (if func = bad then Returned (w\<lparr>stopped := False\<rparr>) else Returned w)"

definition idle_world :: "unit world" where
  "idle_world = \<lparr>stopped = False, plugin_state = ()\<rparr>"


text \<open>
  What \<open>urlparse\<close> gives for a few URLs (for any other, here, what it gives for a string
  with no scheme and no host), and two networks: one where every call succeeds, one
  where the name does not resolve. A socket is numbered by the calls made before it.
\<close>

definition example_urlparse :: "string \<Rightarrow> py_exn + parsed_url" where
  "example_urlparse url =
     (if url = ''http://example.com:0/''
      then Inr \<lparr>scheme = ''http'', hostname = Some ''example.com'', port = Inr (Some 0)\<rparr>
      else if url = ''http://example.com:8080/''
      then Inr \<lparr>scheme = ''http'', hostname = Some ''example.com'', port = Inr (Some 8080)\<rparr>
      else if url = ''https://example.com/''
      then Inr \<lparr>scheme = ''https'', hostname = Some ''example.com'', port = Inr None\<rparr>
      else Inr \<lparr>scheme = [], hostname = None, port = Inr None\<rparr>)"

definition reachable_net :: net where
  "reachable_net =
     \<lparr>urlparse = example_urlparse,
      gethostbyname = (\<lambda>ops host. Inr ''93.184.216.34''),
      create_connection = (\<lambda>ops host port_no timeout. Inr (length ops)),
      wrap_socket = (\<lambda>ops sock reqs ssl_params. Inr ())\<rparr>"

definition unresolved_net :: net where
  "unresolved_net =
     \<lparr>urlparse = example_urlparse,
      gethostbyname = (\<lambda>ops host. Inl (Exception ''[Errno -2] Name or service not known'')),
      create_connection = (\<lambda>ops host port_no timeout. Inr (length ops)),
      wrap_socket = (\<lambda>ops sock reqs ssl_params. Inr ())\<rparr>"


section \<open>Theorems about the registries\<close>

lemma startup_funcs_Returned:
  "startup_funcs call fs w = (called, Returned w') \<Longrightarrow> called = fs"
  by (induction fs arbitrary: w called) (auto split: outcome.splits prod.splits)

lemma startup_funcs_append:
  "startup_funcs call (xs @ ys) w =
     (case startup_funcs call xs w of
        (called, Raised e w') \<Rightarrow> (called, Raised e w')
      | (called, Returned w') \<Rightarrow>
          (case startup_funcs call ys w' of (called', r) \<Rightarrow> (called @ called', r)))"
  by (induction xs arbitrary: w) (auto split: outcome.splits prod.splits)

lemma startup_items_flat:
  "startup_items call items w = startup_funcs call (concat (map snd items)) w"
  by (induction items arbitrary: w) (auto simp: startup_funcs_append split: outcome.splits prod.splits)

lemma shutdown_funcs_append:
  "shutdown_funcs call (xs @ ys) w =
     (case shutdown_funcs call xs w of
        (called, warned, Raised e w') \<Rightarrow> (called, warned, Raised e w')
      | (called, warned, Returned w') \<Rightarrow>
          (case shutdown_funcs call ys w' of
             (called', warned', r) \<Rightarrow> (called @ called', warned @ warned', r)))"
  by (induction xs arbitrary: w) (auto split: outcome.splits prod.splits)

lemma shutdown_items_flat:
  "shutdown_items call items w = shutdown_funcs call (concat (map snd items)) w"
  by (induction items arbitrary: w) (auto simp: shutdown_funcs_append split: outcome.splits prod.splits)

lemma entries_Nil: "entries [] = []"
  by (simp add: entries_def)

lemma entries_Cons: "entries ((p, fs) # items) = map (\<lambda>f. (f, p)) fs @ entries items"
  by (simp add: entries_def)

lemma map_fst_entries: "map fst (entries items) = concat (map snd items)"
  by (induction items) (auto simp: entries_Nil entries_Cons comp_def)

lemma shutdown_funcs_Returned:
  "shutdown_funcs call fs w = (called, warned, Returned w') \<Longrightarrow> called = fs"
  by (induction fs arbitrary: w called warned) (auto split: outcome.splits prod.splits if_splits)

(* registry *)
lemma keys_registry_append:
  "fst ` set (registry_append reg p f) = insert p (fst ` set reg)"
  by (induction reg p f rule: registry_append.induct) auto

lemma distinct_registry_append:
  "distinct (map fst reg) \<Longrightarrow> distinct (map fst (registry_append reg p f))"
  by (induction reg p f rule: registry_append.induct) (auto simp: keys_registry_append)

lemma mset_entries_registry_append:
  "mset (entries (registry_append reg p f)) = add_mset (f, p) (mset (entries reg))"
  by (induction reg p f rule: registry_append.induct) (auto simp: entries_Nil entries_Cons)

lemma mset_entries_sum:
  "mset (entries xs) = sum_mset (image_mset (\<lambda>(p, fs). mset (map (\<lambda>f. (f, p)) fs)) (mset xs))"
  by (induction xs) (auto simp: entries_Nil entries_Cons)

lemma mset_entries_cong:
  "mset xs = mset ys \<Longrightarrow> mset (entries xs) = mset (entries ys)"
  by (simp add: mset_entries_sum)

lemma snd_entries: "x \<in> set (entries items) \<Longrightarrow> snd x \<in> fst ` set items"
  by (induction items) (fastforce simp: entries_Nil entries_Cons)+

lemma sorted_entries:
  "sorted (map fst items) \<Longrightarrow> sorted (map snd (entries items))"
proof (induction items)
  case Nil
  then show ?case by (simp add: entries_Nil entries_Cons)
next
  case (Cons a items)
  obtain p fs where a: "a = (p, fs)" by (cases a)
  have e: "entries (a # items) = map (\<lambda>f. (f, p)) fs @ entries items"
    by (simp add: entries_Cons a)
  have "\<forall>y \<in> set (entries items). p \<le> snd y"
  proof
    fix y assume "y \<in> set (entries items)"
    then have "snd y \<in> fst ` set items" by (rule snd_entries)
    with Cons.prems show "p \<le> snd y" by (auto simp: a)
  qed
  moreover have "sorted (map snd (entries items))" using Cons by simp
  moreover have "sorted (map snd (map (\<lambda>f. (f, p)) fs))"
    by (induction fs) auto
  ultimately show ?case unfolding e by (auto simp: sorted_append)
qed


lemma append_all_snoc:
  "append_all reg (regs @ [(f, p)]) = registry_append (append_all reg regs) p f"
  by (simp add: append_all_def)

lemma distinct_append_all:
  "distinct (map fst reg) \<Longrightarrow> distinct (map fst (append_all reg regs))"
  by (induction regs rule: rev_induct) (auto simp: append_all_snoc distinct_registry_append append_all_def)

lemma mset_entries_append_all:
  "mset (entries (append_all reg regs)) = mset (entries reg) + mset regs"
  by (induction regs rule: rev_induct) (auto simp: append_all_snoc mset_entries_registry_append append_all_def)

lemma filter_entries:
  "filter (\<lambda>x. snd x = k) (entries items) = entries (filter (\<lambda>x. fst x = k) items)"
  by (induction items) (auto simp: entries_Nil entries_Cons)

lemma entries_filter_absent:
  "k \<notin> fst ` set items \<Longrightarrow> entries (filter (\<lambda>x. fst x = k) items) = []"
  by (induction items) (auto simp: entries_Nil entries_Cons)

lemma entries_filter_registry_append:
  "distinct (map fst reg) \<Longrightarrow>
   entries (filter (\<lambda>x. fst x = k) (registry_append reg p f)) =
   entries (filter (\<lambda>x. fst x = k) reg) @ (if p = k then [(f, p)] else [])"
proof (induction reg p f rule: registry_append.induct)
  case (1 priority func)
  then show ?case by (simp add: entries_Nil entries_Cons)
next
  case (2 k' fs rest priority func)
  show ?case
  proof (cases "k' = priority")
    case True
    with "2.prems" have "priority \<notin> fst ` set rest" by auto
    then have "entries (filter (\<lambda>x. fst x = priority) rest) = []"
      by (rule entries_filter_absent)
    with True show ?thesis by (auto simp: entries_Nil entries_Cons)
  next
    case False
    with 2 show ?thesis by (auto simp: entries_Nil entries_Cons)
  qed
qed

lemma entries_filter_append_all:
  "distinct (map fst reg) \<Longrightarrow>
   entries (filter (\<lambda>x. fst x = k) (append_all reg regs)) =
   entries (filter (\<lambda>x. fst x = k) reg) @ filter (\<lambda>x. snd x = k) regs"
proof (induction regs rule: rev_induct)
  case Nil
  then show ?case by (simp add: append_all_def)
next
  case (snoc x regs)
  obtain f p where x: "x = (f, p)" by (cases x)
  from snoc.prems have "distinct (map fst (append_all reg regs))"
    by (rule distinct_append_all)
  then show ?case
    using snoc by (simp add: x append_all_snoc entries_filter_registry_append)
qed

lemma schedule_append_all:
  "schedule (append_all [] regs) = sort_key snd regs"
proof (rule properties_for_sort_key [symmetric])
  show "mset (schedule (append_all [] regs)) = mset regs"
  proof -
    have "mset (entries (sort_key fst (append_all [] regs))) = mset (entries (append_all [] regs))"
      by (rule mset_entries_cong) simp
    also have "\<dots> = mset (entries []) + mset regs"
      by (rule mset_entries_append_all)
    finally show ?thesis
      by (simp add: schedule_def sorted_items_def entries_Nil)
  qed
next
  fix k :: "'a \<times> int"
  have "filter (\<lambda>x. snd x = snd k) (schedule (append_all [] regs)) =
        entries (filter (\<lambda>x. fst x = snd k) (append_all [] regs))"
    unfolding schedule_def sorted_items_def by (simp add: filter_entries sort_key_stable)
  also have "\<dots> = filter (\<lambda>x. snd x = snd k) regs"
    by (simp add: entries_filter_append_all entries_Nil)
  finally show "filter (\<lambda>x. snd k = snd x) (schedule (append_all [] regs)) =
        filter (\<lambda>x. snd k = snd x) regs"
    by (simp add: eq_commute)
next
  show "sorted (map snd (schedule (append_all [] regs)))"
    unfolding schedule_def sorted_items_def by (rule sorted_entries) simp
qed

lemma startup_registry_register_all:
  "startup_registry (register_all script rs) = append_all (startup_registry rs) (startups script)"
proof (induction script arbitrary: rs)
  case Nil
  then show ?case by (simp add: register_all_def append_all_def)
next
  case (Cons r script)
  then show ?case
    by (cases r) (simp_all add: register_all_def append_all_def
        priv_on_startup_def priv_on_shutdown_def)
qed

lemma shutdown_registry_register_all:
  "shutdown_registry (register_all script rs) = append_all (shutdown_registry rs) (shutdowns script)"
proof (induction script arbitrary: rs)
  case Nil
  then show ?case by (simp add: register_all_def append_all_def)
next
  case (Cons r script)
  then show ?case
    by (cases r) (simp_all add: register_all_def append_all_def
        priv_on_startup_def priv_on_shutdown_def)
qed


lemma run_startup_flat:
  "run_startup call rs w = startup_funcs call (execution_order (startup_registry rs)) w"
  by (simp add: run_startup_def execution_order_def schedule_def map_fst_entries startup_items_flat)

lemma run_shutdown_flat:
  "run_shutdown call rs w = shutdown_funcs call (execution_order (shutdown_registry rs)) w"
  by (simp add: run_shutdown_def execution_order_def schedule_def map_fst_entries shutdown_items_flat)

lemma schedule_startup_registry:
  "schedule (startup_registry (register_all script empty_registries)) = sort_key snd (startups script)"
  by (simp add: startup_registry_register_all empty_registries_def schedule_append_all)

lemma schedule_shutdown_registry:
  "schedule (shutdown_registry (register_all script empty_registries)) = sort_key snd (shutdowns script)"
  by (simp add: shutdown_registry_register_all empty_registries_def schedule_append_all)

text \<open>
  Claim C1. Callbacks of one registry run in ascending order of priority, and callbacks
  of one priority in the order of their registration. For every sequence of
  registrations, the sequence the loops of \<open>_run_startup\<close> (and of \<open>_run_shutdown\<close>)
  walk through is the stable sort by priority of the registrations made in that
  registry: it is sorted by priority, and for every priority \<open>k\<close> the entries of
  priority \<open>k\<close> stand in it as they were registered. A run that returns has called
  exactly this sequence.
\<close>

theorem priority_order:
  "let rs = register_all script empty_registries;
       ups = schedule (startup_registry rs);
       downs = schedule (shutdown_registry rs)
   in ups = sort_key snd (startups script) \<and> downs = sort_key snd (shutdowns script)
      \<and> sorted (map snd ups) \<and> sorted (map snd downs)
      \<and> (\<forall>k. filter (\<lambda>x. snd x = k) ups = filter (\<lambda>x. snd x = k) (startups script))
      \<and> (\<forall>k. filter (\<lambda>x. snd x = k) downs = filter (\<lambda>x. snd x = k) (shutdowns script))
      \<and> (is_Returned (snd (run_startup call rs w))
            \<longrightarrow> fst (run_startup call rs w) = map fst ups)
      \<and> (is_Returned (snd (snd (run_shutdown call rs w)))
            \<longrightarrow> fst (run_shutdown call rs w) = map fst downs)"
proof -
  define rs where "rs = register_all script empty_registries"
  have ups: "schedule (startup_registry rs) = sort_key snd (startups script)"
    unfolding rs_def by (rule schedule_startup_registry)
  have downs: "schedule (shutdown_registry rs) = sort_key snd (shutdowns script)"
    unfolding rs_def by (rule schedule_shutdown_registry)
  have run_up: "fst (run_startup call rs w) = map fst (schedule (startup_registry rs))"
    if "is_Returned (snd (run_startup call rs w))"
  proof -
    obtain called r where c: "run_startup call rs w = (called, r)"
      by (cases "run_startup call rs w")
    with that obtain w' where "r = Returned w'" by (cases r) auto
    with c have "called = execution_order (startup_registry rs)"
      by (simp add: run_startup_flat startup_funcs_Returned)
    with c show ?thesis by (simp add: execution_order_def)
  qed
  have run_down: "fst (run_shutdown call rs w) = map fst (schedule (shutdown_registry rs))"
    if "is_Returned (snd (snd (run_shutdown call rs w)))"
  proof -
    obtain called warned r where c: "run_shutdown call rs w = (called, warned, r)"
      by (cases "run_shutdown call rs w")
    with that obtain w' where "r = Returned w'" by (cases r) auto
    with c have "called = execution_order (shutdown_registry rs)"
      by (simp add: run_shutdown_flat shutdown_funcs_Returned)
    with c show ?thesis by (simp add: execution_order_def)
  qed
  show ?thesis
    unfolding Let_def rs_def [symmetric]
    using run_up run_down by (simp add: ups downs sort_key_stable)
qed

text \<open>
  Claim C3. \<open>_run_startup\<close> stops at the first callback that raises: when the callbacks
  before \<open>f\<close> in execution order return and \<open>f\<close> raises \<open>e\<close>, the run has called those
  callbacks and \<open>f\<close>, none of the callbacks after \<open>f\<close>, and ends with \<open>e\<close> raised to the
  caller.
\<close>

theorem run_startup_aborts:
  assumes "execution_order (startup_registry rs) = pre @ f # post"
    and "startup_funcs call pre w = (pre, Returned w1)"
    and "call f w1 = Raised e w2"
  shows "run_startup call rs w = (pre @ [f], Raised e w2)"
  using assms by (simp add: run_startup_flat startup_funcs_append)

text \<open>
  Claim C9. The isolation of \<open>_run_shutdown\<close> covers \<open>Exception\<close> only: when a shutdown
  callback \<open>f\<close> raises an exception \<open>e\<close> that is not an \<open>Exception\<close>, the run ends there
  with \<open>e\<close> raised to the caller, and the callbacks after \<open>f\<close> are not called.
\<close>

theorem run_shutdown_base_exception:
  assumes "execution_order (shutdown_registry rs) = pre @ f # post"
    and "shutdown_funcs call pre w = (pre, warned, Returned w1)"
    and "call f w1 = Raised e w2"
    and "\<not> is_Exception e"
  shows "run_shutdown call rs w = (pre @ [f], warned, Raised e w2)"
  using assms by (simp add: run_shutdown_flat shutdown_funcs_append)

lemma shutdown_funcs_all:
  assumes "\<forall>f \<in> set fs. \<forall>w e w'. call f w = Raised e w' \<longrightarrow> is_Exception e"
  shows "\<exists>warned w'. shutdown_funcs call fs w = (fs, warned, Returned w')"
  using assms
proof (induction fs arbitrary: w)
  case Nil
  then show ?case by simp
next
  case (Cons f fs)
  show ?case
  proof (cases "call f w")
    case (Returned w1)
    from Cons obtain warned w' where "shutdown_funcs call fs w1 = (fs, warned, Returned w')"
      by fastforce
    with Returned show ?thesis by simp
  next
    case (Raised e w1)
    with Cons.prems have "is_Exception e" by auto
    moreover from Cons obtain warned w' where "shutdown_funcs call fs w1 = (fs, warned, Returned w')"
      by fastforce
    ultimately show ?thesis using Raised by simp
  qed
qed

text \<open>
  Claim C2. \<open>_run_shutdown\<close> calls every registered shutdown callback even when some
  raise: if the exceptions the callbacks raise are \<open>Exception\<close>s, the run calls all of
  them in execution order and returns. With three callbacks of which the second raises
  the \<open>Exception\<close> \<open>e\<close>, the first and the third are called, \<open>e\<close> is logged as a
  warning, and \<open>_run_shutdown\<close> returns to its caller from the state the third
  callback left.
\<close>

theorem run_shutdown_isolates_errors:
  "((\<forall>f \<in> set (execution_order (shutdown_registry rs)).
        \<forall>w e w'. call f w = Raised e w' \<longrightarrow> is_Exception e)
     \<longrightarrow> (\<exists>warned w'. run_shutdown call rs w0 =
            (execution_order (shutdown_registry rs), warned, Returned w')))
   \<and> (execution_order (shutdown_registry rs) = [f1, f2, f3]
        \<and> call f1 w0 = Returned w1 \<and> call f2 w1 = Raised e w2 \<and> is_Exception e
        \<and> call f3 w2 = Returned w3
     \<longrightarrow> run_shutdown call rs w0 = ([f1, f2, f3], [log_warn e], Returned w3))"
  by (auto simp: run_shutdown_flat shutdown_funcs_all)


lemmas registry_evals =
  register_all_def priv_on_startup_def priv_on_shutdown_def
  empty_registries_def run_startup_def run_shutdown_def sorted_items_def

text \<open>
  The example of the specification: priorities 30, 10, 20 run as 10, 20, 30, and of two
  callbacks of priority 10 the one registered first runs first.
\<close>

theorem priority_order_witness:
  "fst (run_startup always_returns
          (register_all [On_startup ''a'' 30, On_shutdown ''A'' 10, On_startup ''b'' 10,
                         On_startup ''c'' 20, On_shutdown ''B'' 10] empty_registries) ())
     = [''b'', ''c'', ''a'']
   \<and> fst (run_shutdown always_returns
          (register_all [On_startup ''a'' 30, On_shutdown ''A'' 10, On_startup ''b'' 10,
                         On_startup ''c'' 20, On_shutdown ''B'' 10] empty_registries) ())
     = [''A'', ''B'']"
proof -
  let ?script = "[On_startup ''a'' 30, On_shutdown ''A'' 10, On_startup ''b'' 10,
                  On_startup ''c'' 20, On_shutdown ''B'' 10]"
  let ?rs = "register_all ?script empty_registries"
  have up: "is_Returned (snd (run_startup always_returns ?rs ()))"
    by (simp add: registry_evals always_returns_def)
  have down: "is_Returned (snd (snd (run_shutdown always_returns ?rs ())))"
    by (simp add: registry_evals always_returns_def log_warn_def)
  from priority_order [of ?script always_returns "()"] up down
  show ?thesis unfolding Let_def by simp
qed

text \<open>Two startup callbacks, the first in execution order raises: the second is not called.\<close>

theorem run_startup_aborts_witness:
  "run_startup (raises_in ''first'' (Exception ''no database''))
     (register_all [On_startup ''second'' 20, On_startup ''first'' 10] empty_registries) ()
   = ([''first''], Raised (Exception ''no database'') ())"
proof -
  let ?rs = "register_all [On_startup ''second'' 20, On_startup ''first'' 10] empty_registries"
  have order: "execution_order (startup_registry ?rs) = [] @ ''first'' # [''second'']"
    by (simp add: registry_evals execution_order_def schedule_def entries_def)
  show ?thesis
    using run_startup_aborts [OF order, of "raises_in ''first'' (Exception ''no database'')" "()" "()"
        "Exception ''no database''" "()"]
    by (simp add: raises_in_def)
qed

text \<open>Three shutdown callbacks, the second raises \<open>KeyboardInterrupt\<close>: the third is not called.\<close>

theorem run_shutdown_base_exception_witness:
  "run_shutdown (raises_in ''second'' KeyboardInterrupt)
     (register_all [On_shutdown ''first'' 10, On_shutdown ''second'' 20, On_shutdown ''third'' 30]
        empty_registries) ()
   = ([''first'', ''second''], [], Raised KeyboardInterrupt ())"
proof -
  let ?rs = "register_all [On_shutdown ''first'' 10, On_shutdown ''second'' 20,
                           On_shutdown ''third'' 30] empty_registries"
  have order: "execution_order (shutdown_registry ?rs) = [''first''] @ ''second'' # [''third'']"
    by (simp add: registry_evals execution_order_def schedule_def entries_def)
  show ?thesis
    using run_shutdown_base_exception [OF order, of "raises_in ''second'' KeyboardInterrupt" "()" "[]" "()"
        KeyboardInterrupt "()"]
    by (simp add: raises_in_def)
qed

text \<open>Three shutdown callbacks, the second raises an \<open>Exception\<close>: all three are called.\<close>

theorem run_shutdown_isolates_errors_witness:
  "run_shutdown (raises_in ''second'' (Exception ''disk full''))
     (register_all [On_shutdown ''first'' 10, On_shutdown ''second'' 20, On_shutdown ''third'' 30]
        empty_registries) ()
   = ([''first'', ''second'', ''third''], [log_warn (Exception ''disk full'')], Returned ())
   \<and> (\<exists>warned w'. run_shutdown (raises_in ''second'' (Exception ''disk full''))
     (register_all [On_shutdown ''first'' 10, On_shutdown ''second'' 20, On_shutdown ''third'' 30]
        empty_registries) ()
      = ([''first'', ''second'', ''third''], warned, Returned w'))"
proof -
  let ?rs = "register_all [On_shutdown ''first'' 10, On_shutdown ''second'' 20,
                           On_shutdown ''third'' 30] empty_registries"
  let ?call = "raises_in ''second'' (Exception ''disk full'') :: string \<Rightarrow> unit \<Rightarrow> unit outcome"
  have order: "execution_order (shutdown_registry ?rs) = [''first'', ''second'', ''third'']"
    by (simp add: registry_evals execution_order_def schedule_def entries_def)
  have only: "\<forall>f \<in> set (execution_order (shutdown_registry ?rs)).
                \<forall>w e w'. ?call f w = Raised e w' \<longrightarrow> is_Exception e"
    by (simp add: raises_in_def)
  from run_shutdown_isolates_errors [of ?rs ?call "()" "''first''" "''second''" "''third''"
      "()" "Exception ''disk full''" "()" "()"] order only
  show ?thesis by (simp add: raises_in_def)
qed


section \<open>Theorems about \<open>mainloop\<close> and the \<open>stopped\<close> event\<close>











lemmas process_evals =
  process_registries_def module_registries_def on_startup_def on_shutdown_def registry_evals



text \<open>
  \<open>on_startup\<close> and \<open>on_shutdown\<close> register a true function and nothing else; their
  decorators register what they are applied to.
\<close>

lemma on_startup_registers:
  "truth f \<Longrightarrow>
   on_startup truth (Some f) (Some p) rs = (Function f, register rs (On_startup f p))"
  by (simp add: on_startup_def)

lemma on_shutdown_registers:
  "truth f \<Longrightarrow>
   on_shutdown truth (Some f) (Some p) rs = (Function f, register rs (On_shutdown f p))"
  by (simp add: on_shutdown_def)

lemma on_startup_false:
  "\<not> truth f \<Longrightarrow> on_startup truth (Some f) (Some p) rs = (Startup_decorator p, rs)"
  by (simp add: on_startup_def)

lemma on_shutdown_false:
  "\<not> truth f \<Longrightarrow> on_shutdown truth (Some f) (Some p) rs = (Shutdown_decorator p, rs)"
  by (simp add: on_shutdown_def)

lemma on_startup_default_priority:
  "truth f \<Longrightarrow>
   on_startup truth (Some f) None rs = (Function f, register rs (On_startup f 50))"
  by (simp add: on_startup_def)

lemma decorators_register:
  "startup_decorator p f rs = (Function f, register rs (On_startup f p))"
  "shutdown_decorator p f rs = (Function f, register rs (On_shutdown f p))"
  by (simp_all add: startup_decorator_def shutdown_decorator_def)

lemma insort_key_split:
  "sorted (map f xs) \<Longrightarrow>
   insort_key f x xs = filter (\<lambda>y. f y < f x) xs @ x # filter (\<lambda>y. f x \<le> f y) xs"
proof (induction xs)
  case Nil
  then show ?case by simp
next
  case (Cons y ys)
  show ?case
  proof (cases "f x \<le> f y")
    case True
    with Cons.prems have "\<forall>z \<in> set ys. f x \<le> f z" by auto
    then have "filter (\<lambda>y. f y < f x) ys = []" and "filter (\<lambda>y. f x \<le> f y) ys = ys"
      by (auto simp: filter_empty_conv filter_id_conv)
    with True show ?thesis by simp
  next
    case False
    with Cons show ?thesis by simp
  qed
qed

lemma insort_key_map_plugin:
  "insort_key snd (g (fst x), snd x) (map (\<lambda>y. (g (fst y), snd y)) ys) =
   map (\<lambda>y. (g (fst y), snd y)) (insort_key snd x ys)"
  by (induction ys) auto

lemma sort_key_map_plugin:
  "sort_key snd (map (\<lambda>y. (g (fst y), snd y)) xs) = map (\<lambda>y. (g (fst y), snd y)) (sort_key snd xs)"
  by (induction xs) (simp_all add: insort_key_map_plugin)

lemma startups_plugin:
  "startups (map plugin_registration script) = map (\<lambda>y. (Plugin (fst y), snd y)) (startups script)"
  by (induction script rule: startups.induct) simp_all

lemma shutdowns_plugin:
  "shutdowns (map plugin_registration script) = map (\<lambda>y. (Plugin (fst y), snd y)) (shutdowns script)"
  by (induction script rule: shutdowns.induct) simp_all

lemma module_registries_eq:
  "module_registries = \<lparr>startup_registry = [(0, [Stopped_clear])], shutdown_registry = [(0, [Stopped_set])]\<rparr>"
  by (simp add: module_registries_def on_startup_def on_shutdown_def registry_evals)

lemma module_registries_script:
  "module_registries = register_all [On_startup Stopped_clear 0, On_shutdown Stopped_set 0] empty_registries"
  by (simp add: module_registries_def register_all_def on_startup_def on_shutdown_def)

lemma process_registries_script:
  "process_registries script =
     register_all (On_startup Stopped_clear 0 # On_shutdown Stopped_set 0 # map plugin_registration script)
       empty_registries"
  by (simp add: process_registries_def module_registries_script register_all_def)

lemma schedule_process_startup:
  "schedule (startup_registry (process_registries script)) =
     map (\<lambda>y. (Plugin (fst y), snd y)) (filter (\<lambda>x. snd x < 0) (sort_key snd (startups script)))
     @ (Stopped_clear, 0)
     # map (\<lambda>y. (Plugin (fst y), snd y)) (filter (\<lambda>x. 0 \<le> snd x) (sort_key snd (startups script)))"
  by (simp add: process_registries_script schedule_startup_registry startups_plugin
      sort_key_map_plugin insort_key_split filter_map comp_def)

lemma schedule_process_shutdown:
  "schedule (shutdown_registry (process_registries script)) =
     map (\<lambda>y. (Plugin (fst y), snd y)) (filter (\<lambda>x. snd x < 0) (sort_key snd (shutdowns script)))
     @ (Stopped_set, 0)
     # map (\<lambda>y. (Plugin (fst y), snd y)) (filter (\<lambda>x. 0 \<le> snd x) (sort_key snd (shutdowns script)))"
  by (simp add: process_registries_script schedule_shutdown_registry shutdowns_plugin
      sort_key_map_plugin insort_key_split filter_map comp_def)

lemma startup_funcs_leaves_stopped:
  "\<forall>f \<in> set fs. leaves_stopped call f \<Longrightarrow>
   stopped (state_of (snd (startup_funcs call fs w))) = stopped w"
proof (induction fs arbitrary: w)
  case Nil
  then show ?case by simp
next
  case (Cons f fs)
  from Cons.prems have f: "stopped (state_of (call f w)) = stopped w"
    by (simp add: leaves_stopped_def)
  show ?case
  proof (cases "call f w")
    case (Returned w1)
    from Cons.IH [of w1] Cons.prems
    have "stopped (state_of (snd (startup_funcs call fs w1))) = stopped w1" by simp
    with Returned f show ?thesis by (cases "startup_funcs call fs w1") simp
  next
    case (Raised e w1)
    with f show ?thesis by simp
  qed
qed

lemma shutdown_funcs_leaves_stopped:
  "\<forall>f \<in> set fs. leaves_stopped call f \<Longrightarrow>
   stopped (state_of (snd (snd (shutdown_funcs call fs w)))) = stopped w"
proof (induction fs arbitrary: w)
  case Nil
  then show ?case by simp
next
  case (Cons f fs)
  from Cons.prems have f: "stopped (state_of (call f w)) = stopped w"
    by (simp add: leaves_stopped_def)
  show ?case
  proof (cases "call f w")
    case (Returned w1)
    from Cons.IH [of w1] Cons.prems
    have "stopped (state_of (snd (snd (shutdown_funcs call fs w1)))) = stopped w1" by simp
    with Returned f show ?thesis by (cases "shutdown_funcs call fs w1") simp
  next
    case (Raised e w1)
    from Cons.IH [of w1] Cons.prems
    have "stopped (state_of (snd (snd (shutdown_funcs call fs w1)))) = stopped w1" by simp
    with Raised f show ?thesis by (cases "shutdown_funcs call fs w1") simp
  qed
qed

lemma startup_after_clear:
  assumes "\<forall>f \<in> set post. leaves_stopped call f"
    and "startup_funcs call (pre @ b # post) w = (called, Returned w')"
    and "\<And>w. call b w = Returned (w\<lparr>stopped := v\<rparr>)"
  shows "stopped w' = v"
proof -
  obtain c1 r1 where pre: "startup_funcs call pre w = (c1, r1)"
    by (cases "startup_funcs call pre w")
  with assms(2) obtain w1 where r1: "r1 = Returned w1"
    by (cases r1) (auto simp: startup_funcs_append)
  obtain c2 r2 where post: "startup_funcs call post (w1\<lparr>stopped := v\<rparr>) = (c2, r2)"
    by (cases "startup_funcs call post (w1\<lparr>stopped := v\<rparr>)")
  from assms(2) pre r1 post assms(3) have "r2 = Returned w'"
    by (simp add: startup_funcs_append)
  moreover from startup_funcs_leaves_stopped [OF assms(1), of "w1\<lparr>stopped := v\<rparr>"] post
  have "stopped (state_of r2) = v" by simp
  ultimately show ?thesis by simp
qed

lemma shutdown_after_set:
  assumes "\<forall>f \<in> set post. leaves_stopped call f"
    and "shutdown_funcs call (pre @ b # post) w = (called, warned, Returned w')"
    and "\<And>w. call b w = Returned (w\<lparr>stopped := v\<rparr>)"
  shows "stopped w' = v"
proof -
  obtain c1 l1 r1 where pre: "shutdown_funcs call pre w = (c1, l1, r1)"
    by (cases "shutdown_funcs call pre w")
  with assms(2) obtain w1 where r1: "r1 = Returned w1"
    by (cases r1) (auto simp: shutdown_funcs_append)
  obtain c2 l2 r2 where post: "shutdown_funcs call post (w1\<lparr>stopped := v\<rparr>) = (c2, l2, r2)"
    by (cases "shutdown_funcs call post (w1\<lparr>stopped := v\<rparr>)")
  from assms(2) pre r1 post assms(3) have "r2 = Returned w'"
    by (simp add: shutdown_funcs_append)
  moreover from shutdown_funcs_leaves_stopped [OF assms(1), of "w1\<lparr>stopped := v\<rparr>"] post
  have "stopped (state_of r2) = v" by simp
  ultimately show ?thesis by simp
qed

lemma leaves_stopped_invoke: "leaves_stopped (invoke call) (Plugin f) = leaves_stopped call f"
  by (simp add: leaves_stopped_def)

text \<open>
  Claim C10, as amended. Importing the module registers \<open>stopped.clear\<close> as a startup
  entry and \<open>stopped.set\<close> as a shutdown entry, both with priority 0 and before any
  plugin can register. In execution order the plugin callbacks of negative priority
  come first, then the module's own entry, then the plugin callbacks of priority 0 and
  above: the module's entry runs before every callback of positive priority. If the
  startup callbacks of priority 0 and above leave the \<open>stopped\<close> event as they find it,
  the event is clear when \<open>_run_startup\<close> returns; if the shutdown callbacks of
  priority 0 and above do, the event is set when \<open>_run_shutdown\<close> returns.
\<close>

theorem builtin_entries:
  "module_registries =
     \<lparr>startup_registry = [(0, [Stopped_clear])], shutdown_registry = [(0, [Stopped_set])]\<rparr>
   \<and> execution_order (startup_registry (process_registries script)) =
       map (\<lambda>x. Plugin (fst x)) (filter (\<lambda>x. snd x < 0) (sort_key snd (startups script)))
       @ Stopped_clear
       # map (\<lambda>x. Plugin (fst x)) (filter (\<lambda>x. 0 \<le> snd x) (sort_key snd (startups script)))
   \<and> execution_order (shutdown_registry (process_registries script)) =
       map (\<lambda>x. Plugin (fst x)) (filter (\<lambda>x. snd x < 0) (sort_key snd (shutdowns script)))
       @ Stopped_set
       # map (\<lambda>x. Plugin (fst x)) (filter (\<lambda>x. 0 \<le> snd x) (sort_key snd (shutdowns script)))
   \<and> ((\<forall>x \<in> set (startups script). 0 \<le> snd x \<longrightarrow> leaves_stopped call (fst x))
        \<longrightarrow> (\<forall>w'. snd (run_startup (invoke call) (process_registries script) w) = Returned w'
               \<longrightarrow> \<not> stopped w'))
   \<and> ((\<forall>x \<in> set (shutdowns script). 0 \<le> snd x \<longrightarrow> leaves_stopped call (fst x))
        \<longrightarrow> (\<forall>w'. snd (snd (run_shutdown (invoke call) (process_registries script) w)) = Returned w'
               \<longrightarrow> stopped w'))"
proof (intro conjI impI allI)
  show "module_registries =
     \<lparr>startup_registry = [(0, [Stopped_clear])], shutdown_registry = [(0, [Stopped_set])]\<rparr>"
    by (rule module_registries_eq)
next
  show "execution_order (startup_registry (process_registries script)) =
       map (\<lambda>x. Plugin (fst x)) (filter (\<lambda>x. snd x < 0) (sort_key snd (startups script)))
       @ Stopped_clear
       # map (\<lambda>x. Plugin (fst x)) (filter (\<lambda>x. 0 \<le> snd x) (sort_key snd (startups script)))"
    by (simp add: execution_order_def schedule_process_startup comp_def)
next
  show "execution_order (shutdown_registry (process_registries script)) =
       map (\<lambda>x. Plugin (fst x)) (filter (\<lambda>x. snd x < 0) (sort_key snd (shutdowns script)))
       @ Stopped_set
       # map (\<lambda>x. Plugin (fst x)) (filter (\<lambda>x. 0 \<le> snd x) (sort_key snd (shutdowns script)))"
    by (simp add: execution_order_def schedule_process_shutdown comp_def)
next
  fix w'
  assume frame: "\<forall>x \<in> set (startups script). 0 \<le> snd x \<longrightarrow> leaves_stopped call (fst x)"
    and ret: "snd (run_startup (invoke call) (process_registries script) w) = Returned w'"
  let ?pre = "map (\<lambda>x. Plugin (fst x)) (filter (\<lambda>x. snd x < 0) (sort_key snd (startups script)))"
  let ?post = "map (\<lambda>x. Plugin (fst x)) (filter (\<lambda>x. 0 \<le> snd x) (sort_key snd (startups script)))"
  from frame have post: "\<forall>f \<in> set ?post. leaves_stopped (invoke call) f"
    by (auto simp: leaves_stopped_invoke)
  obtain called where "startup_funcs (invoke call) (?pre @ Stopped_clear # ?post) w = (called, Returned w')"
    using ret
    by (cases "run_startup (invoke call) (process_registries script) w")
      (simp add: run_startup_flat execution_order_def schedule_process_startup comp_def)
  from startup_after_clear [OF post this, of False] show "\<not> stopped w'" by simp
next
  fix w'
  assume frame: "\<forall>x \<in> set (shutdowns script). 0 \<le> snd x \<longrightarrow> leaves_stopped call (fst x)"
    and ret: "snd (snd (run_shutdown (invoke call) (process_registries script) w)) = Returned w'"
  let ?pre = "map (\<lambda>x. Plugin (fst x)) (filter (\<lambda>x. snd x < 0) (sort_key snd (shutdowns script)))"
  let ?post = "map (\<lambda>x. Plugin (fst x)) (filter (\<lambda>x. 0 \<le> snd x) (sort_key snd (shutdowns script)))"
  from frame have post: "\<forall>f \<in> set ?post. leaves_stopped (invoke call) f"
    by (auto simp: leaves_stopped_invoke)
  obtain called warned where
    "shutdown_funcs (invoke call) (?pre @ Stopped_set # ?post) w = (called, warned, Returned w')"
    using ret
    by (cases "run_shutdown (invoke call) (process_registries script) w")
      (simp add: run_shutdown_flat execution_order_def schedule_process_shutdown comp_def)
  from shutdown_after_set [OF post this, of True] show "stopped w'" by simp
qed

text \<open>
  A process whose callbacks do not touch the event: the startup clears it, the
  shutdown sets it.
\<close>

theorem builtin_entries_witness:
  "run_startup (invoke always_returns)
      (process_registries [On_startup ''early'' (- 5), On_startup ''late'' 50, On_shutdown ''cleanup'' 50])
      \<lparr>stopped = True, plugin_state = ()\<rparr>
    = ([Plugin ''early'', Stopped_clear, Plugin ''late''], Returned \<lparr>stopped = False, plugin_state = ()\<rparr>)
   \<and> run_shutdown (invoke always_returns)
      (process_registries [On_startup ''early'' (- 5), On_startup ''late'' 50, On_shutdown ''cleanup'' 50])
      \<lparr>stopped = False, plugin_state = ()\<rparr>
    = ([Stopped_set, Plugin ''cleanup''], [], Returned \<lparr>stopped = True, plugin_state = ()\<rparr>)
   \<and> \<not> stopped (state_of (snd (run_startup (invoke always_returns)
      (process_registries [On_startup ''early'' (- 5), On_startup ''late'' 50, On_shutdown ''cleanup'' 50])
      \<lparr>stopped = True, plugin_state = ()\<rparr>)))
   \<and> stopped (state_of (snd (snd (run_shutdown (invoke always_returns)
      (process_registries [On_startup ''early'' (- 5), On_startup ''late'' 50, On_shutdown ''cleanup'' 50])
      \<lparr>stopped = False, plugin_state = ()\<rparr>))))"
proof -
  let ?script = "[On_startup ''early'' (- 5), On_startup ''late'' 50, On_shutdown ''cleanup'' 50]"
  let ?call = "always_returns :: string \<Rightarrow> unit world \<Rightarrow> unit world outcome"
  have up: "run_startup (invoke ?call) (process_registries ?script) \<lparr>stopped = True, plugin_state = ()\<rparr>
    = ([Plugin ''early'', Stopped_clear, Plugin ''late''], Returned \<lparr>stopped = False, plugin_state = ()\<rparr>)"
    by (simp add: process_evals always_returns_def)
  have down: "run_shutdown (invoke ?call) (process_registries ?script) \<lparr>stopped = False, plugin_state = ()\<rparr>
    = ([Stopped_set, Plugin ''cleanup''], [], Returned \<lparr>stopped = True, plugin_state = ()\<rparr>)"
    by (simp add: process_evals always_returns_def)
  have f1: "\<forall>x \<in> set (startups ?script). 0 \<le> snd x \<longrightarrow> leaves_stopped ?call (fst x)"
    by (simp add: leaves_stopped_def always_returns_def)
  have f2: "\<forall>x \<in> set (shutdowns ?script). 0 \<le> snd x \<longrightarrow> leaves_stopped ?call (fst x)"
    by (simp add: leaves_stopped_def always_returns_def)
  from builtin_entries [of ?script ?call "\<lparr>stopped = True, plugin_state = ()\<rparr>"] f1 up
  have a: "\<not> stopped (state_of (snd (run_startup (invoke ?call) (process_registries ?script)
               \<lparr>stopped = True, plugin_state = ()\<rparr>)))"
    by simp
  from builtin_entries [of ?script ?call "\<lparr>stopped = False, plugin_state = ()\<rparr>"] f2 down
  have b: "stopped (state_of (snd (snd (run_shutdown (invoke ?call) (process_registries ?script)
               \<lparr>stopped = False, plugin_state = ()\<rparr>))))"
    by simp
  from up down a b show ?thesis by simp
qed

text \<open>
  Claim C10 as stated fails: \<open>stopped\<close> is a global every callback can reach. After a
  startup with a callback of priority 50 that calls \<open>stopped.set()\<close> the event is set,
  and after a shutdown with a callback of priority 50 that calls \<open>stopped.clear()\<close> it
  is clear.
\<close>

theorem builtin_entries_counterexample:
  "run_startup (invoke (stops_in ''halt'')) (process_registries [On_startup ''halt'' 50]) idle_world
     = ([Stopped_clear, Plugin ''halt''], Returned \<lparr>stopped = True, plugin_state = ()\<rparr>)
   \<and> run_shutdown (invoke (clears_in ''reset'')) (process_registries [On_shutdown ''reset'' 50]) idle_world
     = ([Stopped_set, Plugin ''reset''], [], Returned \<lparr>stopped = False, plugin_state = ()\<rparr>)"
  by (simp add: process_evals stops_in_def clears_in_def idle_world_def)


section \<open>Theorems about \<open>_check\<close>\<close>

lemma effective_port_explicit: "p \<noteq> 0 \<Longrightarrow> effective_port (Some p) sch = p"
  by (simp add: effective_port_def)

lemma effective_port_default:
  "effective_port None sch = (if sch = ''https'' \<or> sch = ''wss'' then 443 else 80)"
  by (simp add: effective_port_def default_port_def)

lemma tls_stages_connects:
  assumes "\<forall>op \<in> set ops. is_connect op \<longrightarrow> op = Create_connection host port_no None"
    and "op \<in> set (fst (tls_stages net ops status host port_no sock ssl_params))"
    and "is_connect op"
  shows "op = Create_connection host port_no None"
  using assms
  by (auto simp: tls_stages_def Let_def split: sum.splits)

lemma check_connects:
  assumes "op \<in> set (fst (check net url ssl_params))" and "is_connect op"
  shows "\<exists>parsed explicit. urlparse net url = Inr parsed \<and> port parsed = Inr explicit
           \<and> op = Create_connection (hostname parsed) (effective_port explicit (scheme parsed)) None"
proof -
  from assms obtain parsed where p: "urlparse net url = Inr parsed"
    by (cases "urlparse net url") (auto simp: check_def Let_def)
  from assms p obtain explicit where e: "port parsed = Inr explicit"
    by (cases "port parsed") (auto simp: check_def Let_def)
  let ?host = "hostname parsed"
  let ?port = "effective_port explicit (scheme parsed)"
  have "op = Create_connection ?host ?port None"
  proof (cases "gethostbyname net [] ?host")
    case (Inl a)
    with assms p e show ?thesis by (auto simp: check_def Let_def)
  next
    case ip: (Inr ip)
    show ?thesis
    proof (cases "create_connection net [Gethostbyname ?host] ?host ?port None")
      case (Inl a)
      with assms p e ip show ?thesis by (auto simp: check_def Let_def)
    next
      case sock: (Inr sock)
      show ?thesis
      proof (cases "any_values ssl_params")
        case False
        with assms p e ip sock show ?thesis by (auto simp: check_def Let_def)
      next
        case True
        let ?ops = "[Gethostbyname ?host, Create_connection ?host ?port None]"
        let ?status = "[Checking url, Using_host_port ?host ?port, Resolved ?host ip, Opened ?host ?port]"
        from assms(1) p e ip sock True
        have mem: "op \<in> set (fst (tls_stages net ?ops ?status ?host ?port sock ssl_params))"
          by (auto simp: check_def Let_def split: prod.splits flow.splits)
        have "\<forall>op \<in> set ?ops. is_connect op \<longrightarrow> op = Create_connection ?host ?port None"
          by simp
        from this mem assms(2) show ?thesis by (rule tls_stages_connects)
      qed
    qed
  qed
  with p e show ?thesis by blast
qed

text \<open>
  Claim C4 at the URL \<open>http://example.com:0/\<close>, which names port 0: \<open>parsed.port\<close> is
  \<open>0\<close>, \<open>0 or 80\<close> is \<open>80\<close>, and \<open>_check\<close> reports and connects to port 80, not to the
  port the URL names. (For every explicit port other than 0, and for the defaults 443
  and 80 of a URL without a port, the lemmas above give the port the claim states.)
\<close>

theorem explicit_port_zero:
  "check reachable_net ''http://example.com:0/'' [] =
     ([Gethostbyname (Some ''example.com''), Create_connection (Some ''example.com'') 80 None],
      Inr [Checking ''http://example.com:0/'', Using_host_port (Some ''example.com'') 80,
           Resolved (Some ''example.com'') ''93.184.216.34'', Opened (Some ''example.com'') 80,
           Everything_works])"
  by code_simp

text \<open>
  Claim C5. When the name does not resolve (\<open>gethostbyname\<close> raises an \<open>Exception\<close>),
  \<open>_check\<close> returns exactly the two lines of the parse stage followed by the line of the
  failed resolution, and the only network call made is the resolution: no connection is
  opened, no handshake is tried, and no line of a later stage is there.
\<close>

theorem dns_failure_stops:
  assumes "urlparse net url = Inr parsed" and "port parsed = Inr explicit"
    and "gethostbyname net [] (hostname parsed) = Inl e" and "is_Exception e"
  shows "check net url ssl_params =
           ([Gethostbyname (hostname parsed)],
            Inr [Checking url,
                 Using_host_port (hostname parsed) (effective_port explicit (scheme parsed)),
                 Failed_resolve (str_exn e)])
         \<and> check_text repr_params net url ssl_params =
           Inr [''checking '' @ url,
                ''using hostname '' @ show_host (hostname parsed) @ '' and port ''
                  @ show_nat (effective_port explicit (scheme parsed)),
                ''failed to resolve host with DNS: '' @ str_exn e]"
  using assms by (simp add: check_def check_text_def except_Exception_def Let_def)

text \<open>
  An \<open>https\<close> URL with credentials on a network where the name does not resolve.
\<close>

theorem dns_failure_stops_witness:
  "check unresolved_net ''https://example.com/'' [(''ca_certs'', Some ''/etc/ca.pem'')] =
     ([Gethostbyname (Some ''example.com'')],
      Inr [Checking ''https://example.com/'', Using_host_port (Some ''example.com'') 443,
           Failed_resolve ''[Errno -2] Name or service not known''])"
  using dns_failure_stops [of unresolved_net "''https://example.com/''"
      "\<lparr>scheme = ''https'', hostname = Some ''example.com'', port = Inr None\<rparr>" None
      "Exception ''[Errno -2] Name or service not known''" "[(''ca_certs'', Some ''/etc/ca.pem'')]"]
  by (simp add: unresolved_net_def example_urlparse_def effective_port_def default_port_def)

text \<open>
  Claim C8, as amended. Every \<open>create_connection\<close> call of \<open>_check\<close> is made with the
  address alone: no timeout is passed, so the timeout the connect works with is the
  default of the process, whatever that is.
\<close>

theorem connect_without_timeout:
  "\<forall>op \<in> set (fst (check net url ssl_params)).
     is_connect op \<longrightarrow>
       (\<exists>host port_no. op = Create_connection host port_no None)
       \<and> timeout_in_effect defaulttimeout op = defaulttimeout"
proof (intro ballI impI)
  fix op assume "op \<in> set (fst (check net url ssl_params))" and "is_connect op"
  then obtain host port_no where "op = Create_connection host port_no None"
    using check_connects by blast
  then show "(\<exists>host port_no. op = Create_connection host port_no None)
       \<and> timeout_in_effect defaulttimeout op = defaulttimeout"
    by (simp add: timeout_in_effect_def)
qed

text \<open>
  Claim C8 as stated fails: the connect stage passes no timeout, and in a process that
  has not set a default (Python's initial state) the connect has none.
\<close>

theorem connect_without_timeout_counterexample:
  "fst (check reachable_net ''http://example.com:8080/'' []) =
     [Gethostbyname (Some ''example.com''), Create_connection (Some ''example.com'') 8080 None]
   \<and> timeout_in_effect None (Create_connection (Some ''example.com'') 8080 None) = None"
  by code_simp

text \<open>
  A check with credentials opens two connections; both are made without a timeout.
\<close>

theorem connect_without_timeout_witness:
  "fst (check reachable_net ''https://example.com/'' [(''ca_certs'', Some ''/etc/ca.pem'')]) =
     [Gethostbyname (Some ''example.com''), Create_connection (Some ''example.com'') 443 None,
      Wrap_socket 1 None [(''ca_certs'', Some ''/etc/ca.pem'')], Close 1,
      Create_connection (Some ''example.com'') 443 None,
      Wrap_socket 4 (Some CERT_REQUIRED) [(''ca_certs'', Some ''/etc/ca.pem'')], Close 4]
   \<and> timeout_in_effect (Some 30) (Create_connection (Some ''example.com'') 443 None) = Some 30
   \<and> timeout_in_effect None (Create_connection (Some ''example.com'') 443 None) = None"
proof -
  let ?ops = "fst (check reachable_net ''https://example.com/'' [(''ca_certs'', Some ''/etc/ca.pem'')])"
  have ops: "?ops =
     [Gethostbyname (Some ''example.com''), Create_connection (Some ''example.com'') 443 None,
      Wrap_socket 1 None [(''ca_certs'', Some ''/etc/ca.pem'')], Close 1,
      Create_connection (Some ''example.com'') 443 None,
      Wrap_socket 4 (Some CERT_REQUIRED) [(''ca_certs'', Some ''/etc/ca.pem'')], Close 4]"
    by code_simp
  then have mem: "Create_connection (Some ''example.com'') 443 None \<in> set ?ops" by simp
  from connect_without_timeout [of reachable_net "''https://example.com/''"
      "[(''ca_certs'', Some ''/etc/ca.pem'')]" "Some 30"] mem
  have a: "timeout_in_effect (Some 30) (Create_connection (Some ''example.com'') 443 None) = Some 30"
    by fastforce
  from connect_without_timeout [of reachable_net "''https://example.com/''"
      "[(''ca_certs'', Some ''/etc/ca.pem'')]" None] mem
  have b: "timeout_in_effect None (Create_connection (Some ''example.com'') 443 None) = None"
    by fastforce
  from ops a b show ?thesis by simp
qed


lemma no_credentials_no_tls:
  assumes "\<not> any_values ssl_params"
  shows "\<not> list_ex is_tls_op (fst (check net url ssl_params))"
    and "snd (check net url ssl_params) = Inr lines \<Longrightarrow> \<not> list_ex is_tls_line lines"
  using assms
  by (auto simp: check_def Let_def except_Exception_def split: sum.splits if_splits)

lemma credentials_first_handshake:
  assumes "any_values ssl_params"
    and "urlparse net url = Inr parsed" and "port parsed = Inr explicit"
    and "gethostbyname net [] (hostname parsed) = Inr ip"
    and "create_connection net [Gethostbyname (hostname parsed)] (hostname parsed)
           (effective_port explicit (scheme parsed)) None = Inr sock"
  shows "Wrap_socket sock None ssl_params \<in> set (fst (check net url ssl_params))"
    and "snd (check net url ssl_params) = Inr lines \<Longrightarrow> list_ex is_tls_line lines"
  using assms
  by (auto simp: check_def tls_stages_def Let_def except_Exception_def split: sum.splits if_splits)

lemma credentials_second_handshake:
  assumes "any_values ssl_params"
    and "urlparse net url = Inr parsed" and "port parsed = Inr explicit"
    and "gethostbyname net [] (hostname parsed) = Inr ip"
    and "create_connection net [Gethostbyname (hostname parsed)] (hostname parsed)
           (effective_port explicit (scheme parsed)) None = Inr sock"
    and "wrap_socket net
           [Gethostbyname (hostname parsed),
            Create_connection (hostname parsed) (effective_port explicit (scheme parsed)) None]
           sock None ssl_params = Inr ()"
    and "create_connection net
           [Gethostbyname (hostname parsed),
            Create_connection (hostname parsed) (effective_port explicit (scheme parsed)) None,
            Wrap_socket sock None ssl_params, Close sock]
           (hostname parsed) (effective_port explicit (scheme parsed)) None = Inr sock2"
  shows "Wrap_socket sock2 (Some CERT_REQUIRED) ssl_params \<in> set (fst (check net url ssl_params))"
  using assms
  by (auto simp: check_def tls_stages_def Let_def except_Exception_def split: sum.splits if_splits)

text \<open>
  Claim C6. When no value of \<open>ssl_params\<close> is a non-empty string, \<open>_check\<close> makes no
  \<open>wrap_socket\<close> call and returns no line of a TLS stage, however it ends. When some
  value is a non-empty string and the stages before (parse, resolution, connect) have
  succeeded, the open socket is wrapped without \<open>cert_reqs\<close> and the result holds a line
  of a TLS stage; when that handshake and the second connection succeed, the new
  socket is wrapped with \<open>cert_reqs=ssl.CERT_REQUIRED\<close>.
\<close>

theorem tls_only_with_credentials:
  "(\<not> any_values ssl_params \<longrightarrow>
       \<not> list_ex is_tls_op (fst (check net url ssl_params))
       \<and> (\<forall>lines. snd (check net url ssl_params) = Inr lines \<longrightarrow> \<not> list_ex is_tls_line lines))
   \<and> (any_values ssl_params
       \<and> urlparse net url = Inr parsed \<and> port parsed = Inr explicit
       \<and> gethostbyname net [] (hostname parsed) = Inr ip
       \<and> create_connection net [Gethostbyname (hostname parsed)] (hostname parsed)
           (effective_port explicit (scheme parsed)) None = Inr sock
      \<longrightarrow> Wrap_socket sock None ssl_params \<in> set (fst (check net url ssl_params))
         \<and> (\<forall>lines. snd (check net url ssl_params) = Inr lines \<longrightarrow> list_ex is_tls_line lines)
         \<and> (\<forall>sock2.
              wrap_socket net
                [Gethostbyname (hostname parsed),
                 Create_connection (hostname parsed) (effective_port explicit (scheme parsed)) None]
                sock None ssl_params = Inr ()
              \<and> create_connection net
                [Gethostbyname (hostname parsed),
                 Create_connection (hostname parsed) (effective_port explicit (scheme parsed)) None,
                 Wrap_socket sock None ssl_params, Close sock]
                (hostname parsed) (effective_port explicit (scheme parsed)) None = Inr sock2
            \<longrightarrow> Wrap_socket sock2 (Some CERT_REQUIRED) ssl_params
                  \<in> set (fst (check net url ssl_params))))"
proof (intro conjI impI allI)
  assume "\<not> any_values ssl_params"
  then show "\<not> list_ex is_tls_op (fst (check net url ssl_params))"
    by (rule no_credentials_no_tls)
next
  fix lines
  assume "\<not> any_values ssl_params" and "snd (check net url ssl_params) = Inr lines"
  then show "\<not> list_ex is_tls_line lines"
    by (rule no_credentials_no_tls)
next
  assume "any_values ssl_params
       \<and> urlparse net url = Inr parsed \<and> port parsed = Inr explicit
       \<and> gethostbyname net [] (hostname parsed) = Inr ip
       \<and> create_connection net [Gethostbyname (hostname parsed)] (hostname parsed)
           (effective_port explicit (scheme parsed)) None = Inr sock"
  then show "Wrap_socket sock None ssl_params \<in> set (fst (check net url ssl_params))"
    by (elim conjE) (rule credentials_first_handshake)
next
  fix lines
  assume "any_values ssl_params
       \<and> urlparse net url = Inr parsed \<and> port parsed = Inr explicit
       \<and> gethostbyname net [] (hostname parsed) = Inr ip
       \<and> create_connection net [Gethostbyname (hostname parsed)] (hostname parsed)
           (effective_port explicit (scheme parsed)) None = Inr sock"
    and "snd (check net url ssl_params) = Inr lines"
  then show "list_ex is_tls_line lines"
    by (elim conjE) (rule credentials_first_handshake)
next
  fix sock2
  assume "any_values ssl_params
       \<and> urlparse net url = Inr parsed \<and> port parsed = Inr explicit
       \<and> gethostbyname net [] (hostname parsed) = Inr ip
       \<and> create_connection net [Gethostbyname (hostname parsed)] (hostname parsed)
           (effective_port explicit (scheme parsed)) None = Inr sock"
    and "wrap_socket net
                [Gethostbyname (hostname parsed),
                 Create_connection (hostname parsed) (effective_port explicit (scheme parsed)) None]
                sock None ssl_params = Inr ()
              \<and> create_connection net
                [Gethostbyname (hostname parsed),
                 Create_connection (hostname parsed) (effective_port explicit (scheme parsed)) None,
                 Wrap_socket sock None ssl_params, Close sock]
                (hostname parsed) (effective_port explicit (scheme parsed)) None = Inr sock2"
  then show "Wrap_socket sock2 (Some CERT_REQUIRED) ssl_params
                  \<in> set (fst (check net url ssl_params))"
    by (elim conjE) (rule credentials_second_handshake)
qed

text \<open>
  The same reachable endpoint checked with credentials that are all empty, and with a
  CA bundle.
\<close>

theorem tls_only_with_credentials_witness:
  "check reachable_net ''https://example.com/''
       [(''ca_certs'', None), (''keyfile'', Some []), (''certfile'', None)] =
     ([Gethostbyname (Some ''example.com''), Create_connection (Some ''example.com'') 443 None],
      Inr [Checking ''https://example.com/'', Using_host_port (Some ''example.com'') 443,
           Resolved (Some ''example.com'') ''93.184.216.34'', Opened (Some ''example.com'') 443,
           Everything_works])
   \<and> \<not> list_ex is_tls_op (fst (check reachable_net ''https://example.com/''
       [(''ca_certs'', None), (''keyfile'', Some []), (''certfile'', None)]))
   \<and> Wrap_socket 1 None [(''ca_certs'', Some ''/etc/ca.pem'')]
       \<in> set (fst (check reachable_net ''https://example.com/'' [(''ca_certs'', Some ''/etc/ca.pem'')]))
   \<and> Wrap_socket 4 (Some CERT_REQUIRED) [(''ca_certs'', Some ''/etc/ca.pem'')]
       \<in> set (fst (check reachable_net ''https://example.com/'' [(''ca_certs'', Some ''/etc/ca.pem'')]))"
proof -
  let ?url = "''https://example.com/''"
  let ?parsed = "\<lparr>scheme = ''https'', hostname = Some ''example.com'', port = Inr None\<rparr>"
  let ?empty = "[(''ca_certs'', None), (''keyfile'', Some []), (''certfile'', None)]"
  let ?creds = "[(''ca_certs'', Some ''/etc/ca.pem'')]"
  have run: "check reachable_net ?url ?empty =
     ([Gethostbyname (Some ''example.com''), Create_connection (Some ''example.com'') 443 None],
      Inr [Checking ''https://example.com/'', Using_host_port (Some ''example.com'') 443,
           Resolved (Some ''example.com'') ''93.184.216.34'', Opened (Some ''example.com'') 443,
           Everything_works])"
    by code_simp
  have none: "\<not> any_values ?empty" by (simp add: any_values_def)
  have some: "any_values ?creds" by (simp add: any_values_def)
  have parsed: "urlparse reachable_net ?url = Inr ?parsed"
    by (simp add: reachable_net_def example_urlparse_def)
  from tls_only_with_credentials [of ?empty reachable_net ?url] none
  have a: "\<not> list_ex is_tls_op (fst (check reachable_net ?url ?empty))"
    by blast
  have dns: "gethostbyname reachable_net [] (hostname ?parsed) = Inr ''93.184.216.34''"
    by (simp add: reachable_net_def)
  have sock: "create_connection reachable_net [Gethostbyname (hostname ?parsed)] (hostname ?parsed)
           (effective_port None (scheme ?parsed)) None = Inr 1"
    by (simp add: reachable_net_def)
  have wrapped: "wrap_socket reachable_net
                [Gethostbyname (hostname ?parsed),
                 Create_connection (hostname ?parsed) (effective_port None (scheme ?parsed)) None]
                1 None ?creds = Inr ()"
    by (simp add: reachable_net_def)
  have sock2: "create_connection reachable_net
                [Gethostbyname (hostname ?parsed),
                 Create_connection (hostname ?parsed) (effective_port None (scheme ?parsed)) None,
                 Wrap_socket 1 None ?creds, Close 1]
                (hostname ?parsed) (effective_port None (scheme ?parsed)) None = Inr 4"
    by (simp add: reachable_net_def)
  from tls_only_with_credentials [of ?creds reachable_net ?url ?parsed None "''93.184.216.34''" 1]
    some parsed dns sock wrapped sock2
  have b: "Wrap_socket 1 None ?creds \<in> set (fst (check reachable_net ?url ?creds))
         \<and> Wrap_socket 4 (Some CERT_REQUIRED) ?creds \<in> set (fst (check reachable_net ?url ?creds))"
    by (simp del: One_nat_def)
  from run a b show ?thesis by simp
qed

end
